theory Spec2Isabelle
  imports Complex_Main
begin

section \<open>Shallow embedding of \<^verbatim>\<open>src/agent_skill/display.py\<close>\<close>

text \<open>
  The module is the terminal front end of a skill package manager: a key decoder, two
  small formatting helpers, and redraw-on-keypress loops for the search-results and the
  agent-selection screens.  A Python \<^verbatim>\<open>str\<close> is modelled as a \<^typ>\<open>string\<close>; one
  element of the list stands for one character of the Python string, so that
  \<^const>\<open>length\<close> is Python's \<^verbatim>\<open>len\<close>.  Python integers are \<^typ>\<open>int\<close>.
\<close>

subsection \<open>Data\<close>

text \<open>
  An agent is a dictionary with the keys \<^verbatim>\<open>'id'\<close>, \<^verbatim>\<open>'name'\<close> and \<^verbatim>\<open>'path'\<close>.
\<close>

record agent =
  agent_id :: string
  agent_name :: string
  agent_path :: string

text \<open>
  One line of the agent checklist, as \<^verbatim>\<open>render\<close> below builds it: whether the agent
  is under the cursor, whether it is selected, the style of its name, the name and the
  path.
\<close>

datatype name_style = BoldReverse | Bold | Dim

record agent_row =
  is_cursor :: bool
  is_selected :: bool
  name_style :: name_style
  row_name :: string
  row_path :: string

subsection \<open>Python slicing and indexing\<close>

text \<open>
  \<^verbatim>\<open>text[:k]\<close>: a negative bound counts from the end of the string and is clipped at
  the start, a bound beyond the end is clipped at the end.
\<close>

definition py_slice_to :: "'a list \<Rightarrow> int \<Rightarrow> 'a list" where
  "py_slice_to xs k =
     (if 0 \<le> k then take (nat k) xs else take (nat (int (length xs) + k)) xs)"

text \<open>
  \<^verbatim>\<open>xs[i]\<close> for a list of length \<open>n\<close>: defined for \<open>-n \<le> i < n\<close>, where a
  negative \<open>i\<close> stands for \<open>n + i\<close>; any other index raises \<^verbatim>\<open>IndexError\<close>, which
  is the value \<open>None\<close> here.
\<close>

definition py_index :: "'a list \<Rightarrow> int \<Rightarrow> 'a option" where
  "py_index xs i =
     (if - int (length xs) \<le> i \<and> i < int (length xs)
      then Some (xs ! nat (if i < 0 then int (length xs) + i else i))
      else None)"

text \<open>
  \<^verbatim>\<open>a % b\<close> on integers: \<^verbatim>\<open>ZeroDivisionError\<close> (the value \<open>None\<close>) for
  \<open>b = 0\<close>; otherwise the remainder of floor division, whose sign is the sign of
  \<open>b\<close>, which is what \<^const>\<open>modulo\<close> on \<^typ>\<open>int\<close> computes.
\<close>

definition py_mod :: "int \<Rightarrow> int \<Rightarrow> int option" where
  "py_mod a b = (if b = 0 then None else Some (a mod b))"

text \<open>\<^verbatim>\<open>s * n\<close> on a sequence: \<open>n\<close> copies of \<open>s\<close>, none when \<open>n \<le> 0\<close>.\<close>

definition py_repeat :: "'a list \<Rightarrow> int \<Rightarrow> 'a list" where
  "py_repeat s n = concat (replicate (nat n) s)"

text \<open>
  \<^verbatim>\<open>int(x)\<close> on a finite float: truncation towards zero.  A finite float is modelled
  by the rational number it denotes.
\<close>

definition py_int :: "rat \<Rightarrow> int" where
  "py_int x = (if 0 \<le> x then \<lfloor>x\<rfloor> else \<lceil>x\<rceil>)"

subsection \<open>The key decoder \<^verbatim>\<open>_read_key\<close>\<close>

text \<open>
  The decoder reads the terminal and returns the name of a key event or the character
  read.  The input still to come is an argument of the model, and what is left of it
  is returned with the key.  The branch taken depends on \<^verbatim>\<open>sys.platform\<close>, an
  argument as well.  Putting the terminal into raw mode and restoring it (the
  \<^verbatim>\<open>try\<close>/\<^verbatim>\<open>finally\<close> of the POSIX branch) does not change what is decoded and is
  not part of the model.

  \<^verbatim>\<open>sys.stdin.read(1)\<close> returns the next character, or the empty string at the end
  of the input.
\<close>

definition read1 :: "string \<Rightarrow> string \<times> string" where
  "read1 inp = (take 1 inp, drop 1 inp)"

text \<open>
  The POSIX branch:
  \<^verbatim>\<open>
  ch = sys.stdin.read(1)
  if ch == '\x1b':  # Escape sequence
      ch2 = sys.stdin.read(1)
      if ch2 == '[':
          ch3 = sys.stdin.read(1)
          if ch3 == 'A': return 'up'
          elif ch3 == 'B': return 'down'
          elif ch3 == 'C': return 'right'
          elif ch3 == 'D': return 'left'
      return 'escape'
  elif ch == '\r' or ch == '\n': return 'enter'
  elif ch == 'q' or ch == 'Q': return 'q'
  elif ch == '\x03': return 'ctrl+c'
  return ch
  \<close>
\<close>

definition read_key_posix :: "string \<Rightarrow> string \<times> string" where
  "read_key_posix inp =
     (let (ch, r1) = read1 inp in
      if ch = [CHR 0x1B] then
        (let (ch2, r2) = read1 r1 in
         if ch2 = ''['' then
           (let (ch3, r3) = read1 r2 in
            if ch3 = ''A'' then (''up'', r3)
            else if ch3 = ''B'' then (''down'', r3)
            else if ch3 = ''C'' then (''right'', r3)
            else if ch3 = ''D'' then (''left'', r3)
            else (''escape'', r3))
         else (''escape'', r2))
      else if ch = [CHR 0x0D] \<or> ch = [CHR 0x0A] then (''enter'', r1)
      else if ch = ''q'' \<or> ch = ''Q'' then (''q'', r1)
      else if ch = [CHR 0x03] then (''ctrl+c'', r1)
      else (ch, r1))"

text \<open>
  \<^verbatim>\<open>key.decode('utf-8', errors='ignore')\<close> on a single byte: an ASCII byte is its
  character; any other byte alone is not valid UTF-8 and is dropped.
\<close>

definition decode_utf8_ignore :: "char \<Rightarrow> string" where
  "decode_utf8_ignore b = (if (of_char b :: nat) < 128 then [b] else [])"

text \<open>
  The Windows branch, where \<^verbatim>\<open>msvcrt.getch()\<close> returns one byte and waits for it:
  with no byte left in the model's input the call does not return, which is the value
  \<open>None\<close>.
  \<^verbatim>\<open>
  key = msvcrt.getch()
  if key == b'\xe0':  # Arrow keys prefix on Windows
      key = msvcrt.getch()
      if key == b'H': return 'up'
      elif key == b'P': return 'down'
      elif key == b'K': return 'left'
      elif key == b'M': return 'right'
  elif key == b'\r': return 'enter'
  elif key == b'q' or key == b'Q': return 'q'
  return key.decode('utf-8', errors='ignore')
  \<close>
\<close>

definition read_key_win32 :: "string \<Rightarrow> (string \<times> string) option" where
  "read_key_win32 inp =
     (case inp of
        [] \<Rightarrow> None
      | key # r1 \<Rightarrow>
          if key = CHR 0xE0 then
            (case r1 of
               [] \<Rightarrow> None
             | key2 # r2 \<Rightarrow>
                 if key2 = CHR ''H'' then Some (''up'', r2)
                 else if key2 = CHR ''P'' then Some (''down'', r2)
                 else if key2 = CHR ''K'' then Some (''left'', r2)
                 else if key2 = CHR ''M'' then Some (''right'', r2)
                 else Some (decode_utf8_ignore key2, r2))
          else if key = CHR 0x0D then Some (''enter'', r1)
          else if key = CHR ''q'' \<or> key = CHR ''Q'' then Some (''q'', r1)
          else Some (decode_utf8_ignore key, r1))"

definition read_key :: "string \<Rightarrow> string \<Rightarrow> (string \<times> string) option" where
  "read_key platform inp =
     (if platform = ''win32'' then read_key_win32 inp else Some (read_key_posix inp))"

subsection \<open>\<^verbatim>\<open>rating_stars\<close>\<close>

text \<open>
  \<^verbatim>\<open>
  def rating_stars(rating: float, max_stars: int = 5) -> str:
      full_stars = int(rating)
      half_star = rating - full_stars >= 0.5
      empty_stars = max_stars - full_stars - (1 if half_star else 0)
      return "<U+2605>" * full_stars + ("<U+00BD>" if half_star else "") + "<U+2606>" * empty_stars
  \<close>
  The three string literals are one character each, written here by their code
  points: the black star, the fraction one half and the white star.  The result is a
  string over these three characters, a list of \<open>glyph\<close>, whose length is the
  \<^verbatim>\<open>len\<close> of the Python string.

  The rating is a float.  \<^verbatim>\<open>int(rating)\<close> is exact, the difference of a finite
  float and its truncation is again a float, so the subtraction does not round, and
  \<open>0.5\<close> is a float: on the rational a finite float denotes, the exact computation
  below is the floating-point one.  Not-a-number and the infinities, where
  \<^verbatim>\<open>int\<close> raises, are not ratings of the model.
\<close>

datatype glyph = FullStar | HalfStar | EmptyStar

definition rating_stars :: "rat \<Rightarrow> int \<Rightarrow> glyph list" where
  "rating_stars rating max_stars =
     (let full_stars = py_int rating;
          half_star = (1 / 2 \<le> rating - of_int full_stars);
          empty_stars = max_stars - full_stars - (if half_star then 1 else 0)
      in py_repeat [FullStar] full_stars
         @ (if half_star then [HalfStar] else [])
         @ py_repeat [EmptyStar] empty_stars)"

subsection \<open>\<^verbatim>\<open>truncate\<close>\<close>

text \<open>
  \<^verbatim>\<open>
  def truncate(text: str, max_length: int = 50) -> str:
      if not text:
          return ""
      if len(text) <= max_length:
          return text
      return text[:max_length - 3] + "..."
  \<close>
\<close>

definition truncate :: "string \<Rightarrow> int \<Rightarrow> string" where
  "truncate text max_length =
     (if text = [] then []
      else if int (length text) \<le> max_length then text
      else py_slice_to text (max_length - 3) @ ''...'')"

subsection \<open>The interactive loops and their environment\<close>

text \<open>
  Both interactive screens run \<^verbatim>\<open>while True: key = _read_key(); ...\<close> inside a
  \<^verbatim>\<open>try\<close> block and a \<^verbatim>\<open>Live\<close> display.  What the terminal and the display library do
  is the environment of the model, one \<open>tick\<close> for each iteration of the loop: either
  the call of \<^verbatim>\<open>_read_key\<close> raises an exception, or it returns a key, and the flag
  says whether the redraw of that iteration (\<^verbatim>\<open>live.update\<close>, \<^verbatim>\<open>live.refresh\<close>), if
  the key asks for one, succeeds.  The loops are recursive functions over the ticks seen
  so far; a loop that has not left after the last tick is waiting for the next key.
\<close>

datatype tick = ReadRaises | Key string bool

text \<open>
  A call of a screen function, after the ticks given, is still waiting for a key, has
  returned a value, or has let an exception escape.
\<close>

datatype 'r outcome = Waiting | Returns 'r | Propagates

subsection \<open>\<^verbatim>\<open>display_search_results\<close>\<close>

text \<open>
  The state of the loop is \<^verbatim>\<open>selected_index\<close>.  One iteration (lines 193 to 206)
  goes on with a new index, returns from the function, or raises:
  \<^verbatim>\<open>
  if key == 'up':
      selected_index = (selected_index - 1) % len(skills)
      live.update(render_display()); live.refresh()
  elif key == 'down':
      selected_index = (selected_index + 1) % len(skills)
      live.update(render_display()); live.refresh()
  elif key == 'enter':
      return skills[selected_index], selected_index
  elif key == 'q' or key == 'escape' or key == 'ctrl+c':
      return None, selected_index
  \<close>
  The type of a skill is a parameter: the loop only moves skills around.
\<close>

datatype 'a search_state = Looping int | Returned "'a option" int | Failed

fun search_step :: "'a list \<Rightarrow> int \<Rightarrow> tick \<Rightarrow> 'a search_state" where
  "search_step skills selected_index ReadRaises = Failed"
| "search_step skills selected_index (Key key redraw_ok) =
     (if key = ''up'' then
        (case py_mod (selected_index - 1) (int (length skills)) of
           None \<Rightarrow> Failed
         | Some i \<Rightarrow> if redraw_ok then Looping i else Failed)
      else if key = ''down'' then
        (case py_mod (selected_index + 1) (int (length skills)) of
           None \<Rightarrow> Failed
         | Some i \<Rightarrow> if redraw_ok then Looping i else Failed)
      else if key = ''enter'' then
        (case py_index skills selected_index of
           None \<Rightarrow> Failed
         | Some skill \<Rightarrow> Returned (Some skill) selected_index)
      else if key = ''q'' \<or> key = ''escape'' \<or> key = ''ctrl+c'' then
        Returned None selected_index
      else Looping selected_index)"




subsection \<open>\<^verbatim>\<open>display_agent_selection\<close>\<close>

text \<open>
  \<^verbatim>\<open>render()\<close> builds two fixed header lines and one line for each agent.  The line
  is determined by whether the agent is under the cursor (the cursor mark), whether it is
  selected (the checkbox), the style of the name, the name and the path; the model keeps
  these and leaves the markup out.
  \<^verbatim>\<open>
  for i, agent in enumerate(agents):
      is_selected = agent['id'] in selected
      is_cursor = i == cursor_index
      ...
      if is_cursor: name_style = "bold reverse"
      elif is_selected: name_style = "bold"
      else: name_style = "dim"
  \<close>
\<close>

definition render_row :: "string set \<Rightarrow> int \<Rightarrow> nat \<times> agent \<Rightarrow> agent_row" where
  "render_row selected cursor_index ia =
     (let i = fst ia; agent = snd ia;
          is_selected = (agent_id agent \<in> selected);
          is_cursor = (int i = cursor_index)
      in \<lparr>is_cursor = is_cursor, is_selected = is_selected,
          name_style = (if is_cursor then BoldReverse else if is_selected then Bold else Dim),
          row_name = agent_name agent, row_path = agent_path agent\<rparr>)"

definition render :: "agent list \<Rightarrow> string set \<Rightarrow> int \<Rightarrow> agent_row list" where
  "render agents selected cursor_index =
     map (render_row selected cursor_index) (enumerate 0 agents)"

text \<open>
  The state of the loop is the set \<^verbatim>\<open>selected\<close> and \<^verbatim>\<open>cursor_index\<close>.  One iteration
  (lines 482 to 509) goes on, leaves the loop by \<^verbatim>\<open>break\<close>, returns the empty list, or
  raises; an exception leaves the state as the statements before it have made it.
  \<^verbatim>\<open>
  if key == 'up':
      cursor_index = (cursor_index - 1) % len(agents)
      live.update(Text.from_markup(render())); live.refresh()
  elif key == 'down':
      cursor_index = (cursor_index + 1) % len(agents)
      live.update(Text.from_markup(render())); live.refresh()
  elif key == ' ':
      agent_id = agents[cursor_index]['id']
      if agent_id in selected: selected.discard(agent_id)
      else: selected.add(agent_id)
      live.update(Text.from_markup(render())); live.refresh()
  elif key == 'enter':
      if not selected: continue
      break
  elif key == 'q' or key == 'escape' or key == 'ctrl+c':
      return []
  \<close>
\<close>

datatype agent_state =
    Continue "string set" int
  | Break "string set" int
  | ReturnEmpty
  | Raised "string set" int

fun agent_step :: "agent list \<Rightarrow> string set \<Rightarrow> int \<Rightarrow> tick \<Rightarrow> agent_state" where
  "agent_step agents selected cursor_index ReadRaises = Raised selected cursor_index"
| "agent_step agents selected cursor_index (Key key redraw_ok) =
     (if key = ''up'' then
        (case py_mod (cursor_index - 1) (int (length agents)) of
           None \<Rightarrow> Raised selected cursor_index
         | Some c \<Rightarrow> if redraw_ok then Continue selected c else Raised selected c)
      else if key = ''down'' then
        (case py_mod (cursor_index + 1) (int (length agents)) of
           None \<Rightarrow> Raised selected cursor_index
         | Some c \<Rightarrow> if redraw_ok then Continue selected c else Raised selected c)
      else if key = '' '' then
        (case py_index agents cursor_index of
           None \<Rightarrow> Raised selected cursor_index
         | Some agent \<Rightarrow>
             (let selected' =
                    (if agent_id agent \<in> selected then selected - {agent_id agent}
                     else insert (agent_id agent) selected)
              in if redraw_ok then Continue selected' cursor_index
                 else Raised selected' cursor_index))
      else if key = ''enter'' then
        (if selected = {} then Continue selected cursor_index
         else Break selected cursor_index)
      else if key = ''q'' \<or> key = ''escape'' \<or> key = ''ctrl+c'' then ReturnEmpty
      else Continue selected cursor_index)"

fun agent_loop :: "agent list \<Rightarrow> string set \<Rightarrow> int \<Rightarrow> tick list \<Rightarrow> agent_state" where
  "agent_loop agents selected cursor_index [] = Continue selected cursor_index"
| "agent_loop agents selected cursor_index (t # ts) =
     (case agent_step agents selected cursor_index t of
        Continue s c \<Rightarrow> agent_loop agents s c ts
      | Break s c \<Rightarrow> Break s c
      | ReturnEmpty \<Rightarrow> ReturnEmpty
      | Raised s c \<Rightarrow> Raised s c)"

text \<open>
  Lines 443 to 446: with no \<^verbatim>\<open>selected_ids\<close> given every agent is selected;
  \<^verbatim>\<open>selected = set(selected_ids)\<close>.
\<close>

definition initial_selected :: "agent list \<Rightarrow> string list option \<Rightarrow> string set" where
  "initial_selected agents selected_ids =
     set (case selected_ids of None \<Rightarrow> map agent_id agents | Some ids \<Rightarrow> ids)"

text \<open>
  The function returns \<^verbatim>\<open>list(selected)\<close>, a list of the elements of the set in no
  particular order, or \<^verbatim>\<open>[]\<close>; the model returns the set of its elements, next to
  the frames that \<^verbatim>\<open>console.print(render())\<close> has printed.  The handler of an
  exception raised while the display is set up (\<open>live_ok\<close> false) or in the loop
  prints one frame and goes on to \<^verbatim>\<open>return list(selected)\<close>.  \<open>print_ok\<close> says
  whether \<^verbatim>\<open>console.print\<close> succeeds; where it raises, outside the \<^verbatim>\<open>try\<close> block
  or in its handler, the exception escapes.  Leaving the \<^verbatim>\<open>Live\<close> display is taken
  not to raise.
\<close>

definition display_agent_selection ::
  "agent list \<Rightarrow> string list option \<Rightarrow> bool \<Rightarrow> bool \<Rightarrow> bool \<Rightarrow> bool \<Rightarrow> tick list
     \<Rightarrow> (agent_row list list \<times> string set) outcome" where
  "display_agent_selection agents selected_ids interactive isatty live_ok print_ok ticks =
     (let selected = initial_selected agents selected_ids; cursor_index = 0 in
      if \<not> interactive \<or> \<not> isatty then
        (if print_ok then Returns ([render agents selected cursor_index], selected)
         else Propagates)
      else if \<not> live_ok then
        (if print_ok then Returns ([render agents selected cursor_index], selected)
         else Propagates)
      else
        (case agent_loop agents selected cursor_index ticks of
           Continue s c \<Rightarrow> Waiting
         | Break s c \<Rightarrow> Returns ([], s)
         | ReturnEmpty \<Rightarrow> Returns ([], {})
         | Raised s c \<Rightarrow>
             if print_ok then Returns ([render agents s c], s) else Propagates))"

text \<open>The selection a loop state holds; after \<^verbatim>\<open>return []\<close> nothing is selected.\<close>

fun selected_of :: "agent_state \<Rightarrow> string set" where
  "selected_of (Continue s c) = s"
| "selected_of (Break s c) = s"
| "selected_of ReturnEmpty = {}"
| "selected_of (Raised s c) = s"

section \<open>Properties\<close>

subsection \<open>\<^verbatim>\<open>truncate\<close>\<close>

lemma length_py_slice_to:
  "length (py_slice_to xs k) =
     (if 0 \<le> k then min (nat k) (length xs) else nat (int (length xs) + k))"
  by (auto simp: py_slice_to_def)

lemma length_truncate_long:
  assumes "text \<noteq> []" and "max_length < int (length text)"
  shows "int (length (truncate text max_length)) =
           (if 3 \<le> max_length then max_length
            else if int (length text) + max_length < 3 then 3
            else int (length text) + max_length)"
  using assms by (auto simp: truncate_def length_py_slice_to)

text \<open>
  Claim C9.  \<^verbatim>\<open>truncate("hello world", 8)\<close> is a string of length exactly 8 whose last
  three characters are \<^verbatim>\<open>"..."\<close> (it is \<^verbatim>\<open>"hello..."\<close>), and
  \<^verbatim>\<open>truncate("hi", 8)\<close> is \<^verbatim>\<open>"hi"\<close>, unchanged.
\<close>

theorem truncate_examples:
  "length (truncate ''hello world'' 8) = 8
   \<and> drop 5 (truncate ''hello world'' 8) = ''...''
   \<and> truncate ''hello world'' 8 = ''hello...''
   \<and> truncate ''hi'' 8 = ''hi''"
  by (simp add: truncate_def py_slice_to_def)

text \<open>
  Claim C10.  For every text and every \<open>max_length \<ge> 3\<close> the result of
  \<^verbatim>\<open>truncate\<close> has at most \<open>max_length\<close> characters, a longer text becoming
  \<^verbatim>\<open>text[:max_length - 3]\<close> followed by the three-character ellipsis.  The hypothesis
  is needed: for \<open>max_length < 3\<close> every non-empty text longer than \<open>max_length\<close> comes
  back longer than \<open>max_length\<close>.
\<close>

theorem truncate_length_bound:
  "(3 \<le> max_length \<longrightarrow>
      int (length (truncate text max_length)) \<le> max_length
      \<and> (max_length < int (length text) \<longrightarrow>
           truncate text max_length = take (nat (max_length - 3)) text @ ''...''))
   \<and> (max_length < 3 \<longrightarrow> text \<noteq> [] \<longrightarrow> max_length < int (length text) \<longrightarrow>
        max_length < int (length (truncate text max_length)))"
proof (intro conjI impI)
  assume m: "3 \<le> max_length"
  show "int (length (truncate text max_length)) \<le> max_length"
  proof (cases "text = [] \<or> int (length text) \<le> max_length")
    case True
    with m show ?thesis by (auto simp: truncate_def)
  next
    case False
    with m show ?thesis by (simp add: length_truncate_long)
  qed
next
  assume "3 \<le> max_length" and "max_length < int (length text)"
  then show "truncate text max_length = take (nat (max_length - 3)) text @ ''...''"
    by (auto simp: truncate_def py_slice_to_def)
next
  assume "max_length < 3" and "text \<noteq> []" and "max_length < int (length text)"
  then show "max_length < int (length (truncate text max_length))"
    by (simp add: length_truncate_long)
qed

theorem truncate_length_bound_witness:
  "(3::int) \<le> 8
   \<and> int (length (truncate ''hello world'' 8)) \<le> 8
   \<and> truncate ''hello world'' 8 = ''hello...''
   \<and> (2::int) < 3 \<and> ''hello'' \<noteq> [] \<and> 2 < int (length ''hello'')
   \<and> 2 < int (length (truncate ''hello'' 2))
   \<and> truncate ''hello'' 2 = ''hell...''"
  using truncate_length_bound [of 8 "''hello world''"]
    truncate_length_bound [of 2 "''hello''"]
  by (simp add: truncate_def py_slice_to_def)

subsection \<open>\<^verbatim>\<open>rating_stars\<close>\<close>

text \<open>
  Claim C8.  \<^verbatim>\<open>rating_stars(3.7)\<close> is a string of five glyphs: three full stars, one
  half star, one empty star.  The float \<open>3.7\<close> is the double
  \<open>4165829655317709 / 2^50\<close>; the exact decimal gives the same string.
\<close>

theorem rating_stars_example:
  "rating_stars (4165829655317709 / 1125899906842624) 5
     = [FullStar, FullStar, FullStar, HalfStar, EmptyStar]
   \<and> length (rating_stars (4165829655317709 / 1125899906842624) 5) = 5
   \<and> rating_stars (37 / 10) 5 = [FullStar, FullStar, FullStar, HalfStar, EmptyStar]"
  by code_simp

subsection \<open>The key decoder\<close>

text \<open>
  Claim C3.  The claim is that carriage return and newline both decode to \<^verbatim>\<open>enter\<close>
  on every platform branch.  The POSIX branch does so (line 64), and the Windows branch
  decodes the carriage return to \<^verbatim>\<open>enter\<close> (line 38); but the Windows branch has no
  case for the newline byte, which falls through to line 42 and comes back as the
  one-character string holding the newline, not as \<^verbatim>\<open>enter\<close>.
\<close>

theorem read_key_enter:
  "read_key ''linux'' [CHR 0x0D] = Some (''enter'', [])
   \<and> read_key ''linux'' [CHR 0x0A] = Some (''enter'', [])
   \<and> read_key ''win32'' [CHR 0x0D] = Some (''enter'', [])
   \<and> read_key ''win32'' [CHR 0x0A] = Some ([CHR 0x0A], [])
   \<and> [CHR 0x0A] \<noteq> ''enter''"
  by (simp add: read_key_def read_key_posix_def read_key_win32_def read1_def
      decode_utf8_ignore_def)

subsection \<open>One iteration, key by key\<close>

lemma search_step_up:
  "search_step skills i (Key ''up'' rd) =
     (case py_mod (i - 1) (int (length skills)) of
        None \<Rightarrow> Failed
      | Some j \<Rightarrow> if rd then Looping j else Failed)"
  by simp

lemma search_step_down:
  "search_step skills i (Key ''down'' rd) =
     (case py_mod (i + 1) (int (length skills)) of
        None \<Rightarrow> Failed
      | Some j \<Rightarrow> if rd then Looping j else Failed)"
  by simp




lemma agent_step_up:
  "agent_step agents s c (Key ''up'' rd) =
     (case py_mod (c - 1) (int (length agents)) of
        None \<Rightarrow> Raised s c
      | Some c' \<Rightarrow> if rd then Continue s c' else Raised s c')"
  by simp

lemma agent_step_down:
  "agent_step agents s c (Key ''down'' rd) =
     (case py_mod (c + 1) (int (length agents)) of
        None \<Rightarrow> Raised s c
      | Some c' \<Rightarrow> if rd then Continue s c' else Raised s c')"
  by simp

lemma agent_step_space:
  "agent_step agents s c (Key '' '' rd) =
     (case py_index agents c of
        None \<Rightarrow> Raised s c
      | Some agent \<Rightarrow>
          if rd
          then Continue (if agent_id agent \<in> s then s - {agent_id agent}
                         else insert (agent_id agent) s) c
          else Raised (if agent_id agent \<in> s then s - {agent_id agent}
                       else insert (agent_id agent) s) c)"
  by (simp add: Let_def split: option.split)

lemma agent_step_enter:
  "agent_step agents s c (Key ''enter'' rd) = (if s = {} then Continue s c else Break s c)"
  by simp

lemma agent_step_cancel:
  "key = ''q'' \<or> key = ''escape'' \<or> key = ''ctrl+c'' \<Longrightarrow>
   agent_step agents s c (Key key rd) = ReturnEmpty"
  by (elim disjE) simp_all

lemma agent_step_other:
  "key \<noteq> ''up'' \<Longrightarrow> key \<noteq> ''down'' \<Longrightarrow> key \<noteq> '' '' \<Longrightarrow> key \<noteq> ''enter'' \<Longrightarrow>
   key \<noteq> ''q'' \<Longrightarrow> key \<noteq> ''escape'' \<Longrightarrow> key \<noteq> ''ctrl+c'' \<Longrightarrow>
   agent_step agents s c (Key key rd) = Continue s c"
  by simp

lemma py_mod_pos: "0 < n \<Longrightarrow> py_mod a n = Some (a mod n)"
  by (simp add: py_mod_def)

lemma py_index_in_set: "py_index xs i = Some x \<Longrightarrow> x \<in> set xs"
  by (auto simp: py_index_def split: if_splits)

subsection \<open>Moving the cursor\<close>

text \<open>
  Claim C7.  On a non-empty list of length \<open>N\<close>, of search results or of agents, and
  from every cursor position, the key \<^verbatim>\<open>up\<close> moves the cursor to \<open>(i - 1) mod N\<close> and
  the key \<^verbatim>\<open>down\<close> to \<open>(i + 1) mod N\<close>; both are in \<open>[0, N)\<close>; \<^verbatim>\<open>up\<close> at
  \<open>0\<close> gives \<open>N - 1\<close> and \<^verbatim>\<open>down\<close> at \<open>N - 1\<close> gives \<open>0\<close>.  (The redraw that
  follows the move is taken to succeed.)
\<close>

theorem up_down_wrap:
  "(skills \<noteq> [] \<longrightarrow>
      search_step skills i (Key ''up'' True) = Looping ((i - 1) mod int (length skills))
    \<and> search_step skills i (Key ''down'' True) = Looping ((i + 1) mod int (length skills))
    \<and> 0 \<le> (i - 1) mod int (length skills) \<and> (i - 1) mod int (length skills) < int (length skills)
    \<and> 0 \<le> (i + 1) mod int (length skills) \<and> (i + 1) mod int (length skills) < int (length skills)
    \<and> search_step skills 0 (Key ''up'' True) = Looping (int (length skills) - 1)
    \<and> search_step skills (int (length skills) - 1) (Key ''down'' True) = Looping 0)
   \<and> (agents \<noteq> [] \<longrightarrow>
      agent_step agents selected c (Key ''up'' True)
        = Continue selected ((c - 1) mod int (length agents))
    \<and> agent_step agents selected c (Key ''down'' True)
        = Continue selected ((c + 1) mod int (length agents))
    \<and> 0 \<le> (c - 1) mod int (length agents) \<and> (c - 1) mod int (length agents) < int (length agents)
    \<and> 0 \<le> (c + 1) mod int (length agents) \<and> (c + 1) mod int (length agents) < int (length agents)
    \<and> agent_step agents selected 0 (Key ''up'' True)
        = Continue selected (int (length agents) - 1)
    \<and> agent_step agents selected (int (length agents) - 1) (Key ''down'' True)
        = Continue selected 0)"
proof (intro conjI impI)
  assume "skills \<noteq> []"
  then have n: "0 < int (length skills)" by simp
  show "search_step skills i (Key ''up'' True) = Looping ((i - 1) mod int (length skills))"
    and "search_step skills i (Key ''down'' True) = Looping ((i + 1) mod int (length skills))"
    and "search_step skills 0 (Key ''up'' True) = Looping (int (length skills) - 1)"
    and "search_step skills (int (length skills) - 1) (Key ''down'' True) = Looping 0"
    using n by (simp_all only: search_step_up search_step_down py_mod_pos)
      (simp_all add: zmod_minus1)
  show "0 \<le> (i - 1) mod int (length skills)" and "0 \<le> (i + 1) mod int (length skills)"
    and "(i - 1) mod int (length skills) < int (length skills)"
    and "(i + 1) mod int (length skills) < int (length skills)"
    using n by simp_all
next
  assume "agents \<noteq> []"
  then have n: "0 < int (length agents)" by simp
  show "agent_step agents selected c (Key ''up'' True)
          = Continue selected ((c - 1) mod int (length agents))"
    and "agent_step agents selected c (Key ''down'' True)
          = Continue selected ((c + 1) mod int (length agents))"
    and "agent_step agents selected 0 (Key ''up'' True)
          = Continue selected (int (length agents) - 1)"
    and "agent_step agents selected (int (length agents) - 1) (Key ''down'' True)
          = Continue selected 0"
    using n by (simp_all only: agent_step_up agent_step_down py_mod_pos)
      (simp_all add: zmod_minus1)
  show "0 \<le> (c - 1) mod int (length agents)" and "0 \<le> (c + 1) mod int (length agents)"
    and "(c - 1) mod int (length agents) < int (length agents)"
    and "(c + 1) mod int (length agents) < int (length agents)"
    using n by simp_all
qed

theorem up_down_wrap_witness:
  "[''a'', ''b'', ''c''] \<noteq> []
   \<and> search_step [''a'', ''b'', ''c''] 0 (Key ''up'' True) = Looping 2
   \<and> search_step [''a'', ''b'', ''c''] 2 (Key ''down'' True) = Looping 0
   \<and> search_step [''a'', ''b'', ''c''] 1 (Key ''down'' True) = Looping 2
   \<and> [\<lparr>agent_id = ''x'', agent_name = ''X'', agent_path = ''/x''\<rparr>,
       \<lparr>agent_id = ''y'', agent_name = ''Y'', agent_path = ''/y''\<rparr>] \<noteq> []
   \<and> agent_step [\<lparr>agent_id = ''x'', agent_name = ''X'', agent_path = ''/x''\<rparr>,
                  \<lparr>agent_id = ''y'', agent_name = ''Y'', agent_path = ''/y''\<rparr>] {''x''} 0
         (Key ''up'' True) = Continue {''x''} 1
   \<and> agent_step [\<lparr>agent_id = ''x'', agent_name = ''X'', agent_path = ''/x''\<rparr>,
                  \<lparr>agent_id = ''y'', agent_name = ''Y'', agent_path = ''/y''\<rparr>] {''x''} 1
         (Key ''down'' True) = Continue {''x''} 0"
  using up_down_wrap [of "[''a'', ''b'', ''c'']" 0
      "[\<lparr>agent_id = ''x'', agent_name = ''X'', agent_path = ''/x''\<rparr>,
        \<lparr>agent_id = ''y'', agent_name = ''Y'', agent_path = ''/y''\<rparr>]" "{''x''}" 0]
    up_down_wrap [of "[''a'', ''b'', ''c'']" 1
      "[\<lparr>agent_id = ''x'', agent_name = ''X'', agent_path = ''/x''\<rparr>,
        \<lparr>agent_id = ''y'', agent_name = ''Y'', agent_path = ''/y''\<rparr>]" "{''x''}" 1]
  by (simp add: py_mod_def)

subsection \<open>The cursor of the search screen\<close>






subsection \<open>The agent-selection loop\<close>

lemma agent_loop_append:
  "agent_loop agents s c (ts @ us) =
     (case agent_loop agents s c ts of
        Continue s' c' \<Rightarrow> agent_loop agents s' c' us
      | Break s' c' \<Rightarrow> Break s' c'
      | ReturnEmpty \<Rightarrow> ReturnEmpty
      | Raised s' c' \<Rightarrow> Raised s' c')"
proof (induction ts arbitrary: s c)
  case Nil
  show ?case by simp
next
  case (Cons t ts)
  show ?case
    by (cases "agent_step agents s c t") (simp_all add: Cons.IH)
qed

lemma agent_loop_snoc:
  assumes "agent_loop agents s0 c0 ts = Continue s c"
  shows "agent_loop agents s0 c0 (ts @ [t]) = agent_step agents s c t"
proof -
  have "agent_loop agents s c [t] = agent_step agents s c t"
    by (cases "agent_step agents s c t") simp_all
  with assms show ?thesis by (simp add: agent_loop_append)
qed

lemma selected_of_step:
  "selected_of (agent_step agents s c t) \<subseteq> s \<union> set (map agent_id agents)"
proof (cases t)
  case ReadRaises
  then show ?thesis by simp
next
  case (Key key rd)
  consider "key = ''up''" | "key = ''down''" | "key = '' ''" | "key = ''enter''"
    | "key = ''q'' \<or> key = ''escape'' \<or> key = ''ctrl+c''"
    | "key \<noteq> ''up''" "key \<noteq> ''down''" "key \<noteq> '' ''" "key \<noteq> ''enter''"
      "key \<noteq> ''q''" "key \<noteq> ''escape''" "key \<noteq> ''ctrl+c''"
    by blast
  then show ?thesis
  proof cases
    case 1
    show ?thesis unfolding Key 1
      by (simp only: agent_step_up) (simp split: option.split)
  next
    case 2
    show ?thesis unfolding Key 2
      by (simp only: agent_step_down) (simp split: option.split)
  next
    case 3
    show ?thesis unfolding Key 3
      by (simp only: agent_step_space) (auto split: option.split dest: py_index_in_set)
  next
    case 4
    show ?thesis unfolding Key 4
      by (simp only: agent_step_enter) simp
  next
    case 5
    then have "agent_step agents s c t = ReturnEmpty"
      unfolding Key by (rule agent_step_cancel)
    then show ?thesis by simp
  next
    case 6
    then have "agent_step agents s c t = Continue s c"
      unfolding Key by (rule agent_step_other)
    then show ?thesis by simp
  qed
qed

lemma selected_of_loop:
  "selected_of (agent_loop agents s c ts) \<subseteq> s \<union> set (map agent_id agents)"
proof (induction ts arbitrary: s c)
  case Nil
  then show ?case by simp
next
  case (Cons t ts)
  have step: "selected_of (agent_step agents s c t) \<subseteq> s \<union> set (map agent_id agents)"
    by (rule selected_of_step)
  show ?case
  proof (cases "agent_step agents s c t")
    case (Continue s' c')
    with step have "s' \<subseteq> s \<union> set (map agent_id agents)" by simp
    moreover have "selected_of (agent_loop agents s' c' ts) \<subseteq> s' \<union> set (map agent_id agents)"
      by (rule Cons.IH)
    ultimately show ?thesis using Continue by auto
  next
    case (Break s' c')
    with step show ?thesis by simp
  next
    case ReturnEmpty
    then show ?thesis by simp
  next
    case (Raised s' c')
    with step show ?thesis by simp
  qed
qed

lemma display_agent_selection_returns:
  assumes "display_agent_selection agents selected_ids interactive isatty live_ok print_ok ticks
             = Returns (printed, s)"
  shows "s = initial_selected agents selected_ids
       \<or> s = selected_of (agent_loop agents (initial_selected agents selected_ids) 0 ticks)"
  using assms
  by (cases "agent_loop agents (initial_selected agents selected_ids) 0 ticks")
    (auto simp: display_agent_selection_def Let_def split: if_splits)

text \<open>
  Claim C2 says that the selected ids are a subset of the ids of the agents shown after
  every operation, the construction from the caller's \<^verbatim>\<open>selected_ids\<close> included.
  Line 446 takes \<^verbatim>\<open>selected_ids\<close> as it comes: an id of no agent shown is selected
  from the start and is returned.
\<close>

theorem selected_not_subset_example:
  "initial_selected [\<lparr>agent_id = ''a'', agent_name = ''A'', agent_path = ''/a''\<rparr>] (Some [''x''])
     = {''x''}
   \<and> display_agent_selection [\<lparr>agent_id = ''a'', agent_name = ''A'', agent_path = ''/a''\<rparr>]
        (Some [''x'']) True True True True [Key ''enter'' True] = Returns ([], {''x''})
   \<and> \<not> {''x''} \<subseteq> set (map agent_id [\<lparr>agent_id = ''a'', agent_name = ''A'', agent_path = ''/a''\<rparr>])"
  by (simp add: initial_selected_def display_agent_selection_def)

text \<open>
  Claim C2, amended.  The selection never holds more than the caller's ids and ids of
  agents shown: a toggle adds or removes the id of an agent shown.  So when every id of
  the caller's \<^verbatim>\<open>selected_ids\<close> is the id of an agent shown, or none is given, the
  selected ids are a subset of the ids of the agents shown on construction, after every
  sequence of key events, and in what the function returns.
\<close>

theorem selected_subset_of_agents:
  "selected_of (agent_loop agents (initial_selected agents selected_ids) 0 ticks)
     \<subseteq> initial_selected agents selected_ids \<union> set (map agent_id agents)
   \<and> ((\<forall>ids. selected_ids = Some ids \<longrightarrow> set ids \<subseteq> set (map agent_id agents)) \<longrightarrow>
        initial_selected agents selected_ids \<subseteq> set (map agent_id agents)
      \<and> selected_of (agent_loop agents (initial_selected agents selected_ids) 0 ticks)
          \<subseteq> set (map agent_id agents)
      \<and> (\<forall>printed s.
            display_agent_selection agents selected_ids interactive isatty live_ok print_ok ticks
              = Returns (printed, s) \<longrightarrow>
            s \<subseteq> set (map agent_id agents)))"
proof (intro conjI impI allI)
  let ?s0 = "initial_selected agents selected_ids"
  let ?A = "set (map agent_id agents)"
  show loop: "selected_of (agent_loop agents ?s0 0 ticks) \<subseteq> ?s0 \<union> ?A"
    by (rule selected_of_loop)
  assume "\<forall>ids. selected_ids = Some ids \<longrightarrow> set ids \<subseteq> ?A"
  then show init: "?s0 \<subseteq> ?A"
    by (cases selected_ids) (simp_all add: initial_selected_def)
  with loop show inv: "selected_of (agent_loop agents ?s0 0 ticks) \<subseteq> ?A"
    by blast
  fix printed s
  assume "display_agent_selection agents selected_ids interactive isatty live_ok print_ok ticks
            = Returns (printed, s)"
  then have "s = ?s0 \<or> s = selected_of (agent_loop agents ?s0 0 ticks)"
    by (rule display_agent_selection_returns)
  with init inv show "s \<subseteq> ?A" by auto
qed


theorem selected_subset_of_agents_witness:
  "set [''a''] \<subseteq> set (map agent_id
       [\<lparr>agent_id = ''a'', agent_name = ''A'', agent_path = ''/a''\<rparr>,
        \<lparr>agent_id = ''b'', agent_name = ''B'', agent_path = ''/b''\<rparr>])
   \<and> agent_loop
        [\<lparr>agent_id = ''a'', agent_name = ''A'', agent_path = ''/a''\<rparr>,
         \<lparr>agent_id = ''b'', agent_name = ''B'', agent_path = ''/b''\<rparr>]
        (initial_selected
           [\<lparr>agent_id = ''a'', agent_name = ''A'', agent_path = ''/a''\<rparr>,
            \<lparr>agent_id = ''b'', agent_name = ''B'', agent_path = ''/b''\<rparr>] (Some [''a''])) 0
        [Key ''down'' True, Key '' '' True, Key ''enter'' True]
       = Break {''a'', ''b''} 1
   \<and> display_agent_selection
        [\<lparr>agent_id = ''a'', agent_name = ''A'', agent_path = ''/a''\<rparr>,
         \<lparr>agent_id = ''b'', agent_name = ''B'', agent_path = ''/b''\<rparr>]
        (Some [''a'']) True True True True
        [Key ''down'' True, Key '' '' True, Key ''enter'' True]
       = Returns ([], {''a'', ''b''})
   \<and> {''a'', ''b''} \<subseteq> set (map agent_id
       [\<lparr>agent_id = ''a'', agent_name = ''A'', agent_path = ''/a''\<rparr>,
        \<lparr>agent_id = ''b'', agent_name = ''B'', agent_path = ''/b''\<rparr>])"
  using selected_subset_of_agents
    [of "[\<lparr>agent_id = ''a'', agent_name = ''A'', agent_path = ''/a''\<rparr>,
          \<lparr>agent_id = ''b'', agent_name = ''B'', agent_path = ''/b''\<rparr>]"
        "Some [''a'']" "[Key ''down'' True, Key '' '' True, Key ''enter'' True]"
        True True True True]
  by (simp add: initial_selected_def display_agent_selection_def py_mod_def py_index_def
      insert_commute)

subsection \<open>Confirming, cancelling, failing\<close>

text \<open>
  Claim C4.  In the interactive loop, with the selection \<open>selected\<close> reached after any
  key events: \<^verbatim>\<open>enter\<close> on an empty selection leaves the loop running in the same
  state, and the function has not returned; \<^verbatim>\<open>enter\<close> on a non-empty selection
  leaves the loop, and the function returns exactly \<open>selected\<close>, printing nothing.
\<close>

theorem enter_needs_selection:
  assumes "agent_loop agents (initial_selected agents selected_ids) 0 ticks
             = Continue selected cursor_index"
  shows "agent_step agents selected cursor_index (Key ''enter'' redraw_ok)
           = (if selected = {} then Continue selected cursor_index
              else Break selected cursor_index)
       \<and> (selected = {} \<longrightarrow>
            agent_loop agents (initial_selected agents selected_ids) 0
                (ticks @ [Key ''enter'' redraw_ok])
              = Continue selected cursor_index
          \<and> display_agent_selection agents selected_ids True True True print_ok
                (ticks @ [Key ''enter'' redraw_ok])
              = Waiting)
       \<and> (selected \<noteq> {} \<longrightarrow>
            display_agent_selection agents selected_ids True True True print_ok
                (ticks @ [Key ''enter'' redraw_ok])
              = Returns ([], selected))"
proof -
  have step: "agent_step agents selected cursor_index (Key ''enter'' redraw_ok)
           = (if selected = {} then Continue selected cursor_index
              else Break selected cursor_index)"
    by (rule agent_step_enter)
  have "agent_loop agents (initial_selected agents selected_ids) 0
          (ticks @ [Key ''enter'' redraw_ok])
        = (if selected = {} then Continue selected cursor_index
           else Break selected cursor_index)"
    using agent_loop_snoc [OF assms, of "Key ''enter'' redraw_ok"] step by simp
  then show ?thesis using step
    by (simp add: display_agent_selection_def)
qed

text \<open>
  Claim C5.  For every list of agents and every selection reached in the interactive
  loop, a cancel key (\<^verbatim>\<open>q\<close>, \<^verbatim>\<open>escape\<close>, \<^verbatim>\<open>ctrl+c\<close>) makes the function return
  the empty list.
\<close>

theorem cancel_returns_empty:
  assumes "agent_loop agents (initial_selected agents selected_ids) 0 ticks
             = Continue selected cursor_index"
    and "key = ''q'' \<or> key = ''escape'' \<or> key = ''ctrl+c''"
  shows "agent_step agents selected cursor_index (Key key redraw_ok) = ReturnEmpty
       \<and> display_agent_selection agents selected_ids True True True print_ok
            (ticks @ [Key key redraw_ok])
           = Returns ([], {})"
proof -
  have step: "agent_step agents selected cursor_index (Key key redraw_ok) = ReturnEmpty"
    using assms(2) by (rule agent_step_cancel)
  then have "agent_loop agents (initial_selected agents selected_ids) 0
               (ticks @ [Key key redraw_ok]) = ReturnEmpty"
    using agent_loop_snoc [OF assms(1), of "Key key redraw_ok"] by simp
  then show ?thesis using step
    by (simp add: display_agent_selection_def)
qed

text \<open>
  Claim C6.  When an exception is raised in the interactive loop, by the key read or by
  any statement of the iteration, the function prints one frame of the state as the
  exception found it and returns the selection of that state; likewise when setting up
  the display raises.  The selection returned may be non-empty, as the witness shows,
  unlike the empty list returned on a cancel key.  (The print of the handler is taken
  to succeed.)
\<close>

theorem exception_returns_current_selection:
  assumes "agent_loop agents (initial_selected agents selected_ids) 0 ticks
             = Continue selected cursor_index"
  shows "display_agent_selection agents selected_ids True True True True (ticks @ [ReadRaises])
           = Returns ([render agents selected cursor_index], selected)
       \<and> (\<forall>t s c. agent_step agents selected cursor_index t = Raised s c \<longrightarrow>
            display_agent_selection agents selected_ids True True True True (ticks @ [t])
              = Returns ([render agents s c], s))
       \<and> display_agent_selection agents selected_ids True True False True []
           = Returns ([render agents (initial_selected agents selected_ids) 0],
                      initial_selected agents selected_ids)"
proof (intro conjI allI impI)
  have raised: "display_agent_selection agents selected_ids True True True True (ticks @ [t])
                  = Returns ([render agents s c], s)"
    if "agent_step agents selected cursor_index t = Raised s c" for t s c
  proof -
    from that have "agent_loop agents (initial_selected agents selected_ids) 0 (ticks @ [t])
                      = Raised s c"
      using agent_loop_snoc [OF assms, of t] by simp
    then show ?thesis by (simp add: display_agent_selection_def)
  qed
  show "display_agent_selection agents selected_ids True True True True (ticks @ [ReadRaises])
          = Returns ([render agents selected cursor_index], selected)"
    by (rule raised) simp
  show "display_agent_selection agents selected_ids True True True True (ticks @ [t])
          = Returns ([render agents s c], s)"
    if "agent_step agents selected cursor_index t = Raised s c" for t s c
    using that by (rule raised)
  show "display_agent_selection agents selected_ids True True False True []
          = Returns ([render agents (initial_selected agents selected_ids) 0],
                     initial_selected agents selected_ids)"
    by (simp add: display_agent_selection_def Let_def)
qed


theorem enter_needs_selection_witness:
  "agent_loop [\<lparr>agent_id = ''a'', agent_name = ''A'', agent_path = ''/a''\<rparr>] (initial_selected [\<lparr>agent_id = ''a'', agent_name = ''A'', agent_path = ''/a''\<rparr>] None) 0 [Key '' '' True] = Continue {} 0
   \<and> display_agent_selection [\<lparr>agent_id = ''a'', agent_name = ''A'', agent_path = ''/a''\<rparr>] None True True True True
        ([Key '' '' True] @ [Key ''enter'' True]) = Waiting
   \<and> agent_loop [\<lparr>agent_id = ''a'', agent_name = ''A'', agent_path = ''/a''\<rparr>] (initial_selected [\<lparr>agent_id = ''a'', agent_name = ''A'', agent_path = ''/a''\<rparr>] None) 0 [] = Continue {''a''} 0
   \<and> {''a''} \<noteq> ({} :: string set)
   \<and> display_agent_selection [\<lparr>agent_id = ''a'', agent_name = ''A'', agent_path = ''/a''\<rparr>] None True True True True
        ([] @ [Key ''enter'' True]) = Returns ([], {''a''})"
proof -
  have h1: "agent_loop [\<lparr>agent_id = ''a'', agent_name = ''A'', agent_path = ''/a''\<rparr>] (initial_selected [\<lparr>agent_id = ''a'', agent_name = ''A'', agent_path = ''/a''\<rparr>] None) 0 [Key '' '' True] = Continue {} 0"
    by (simp add: initial_selected_def py_index_def)
  have h2: "agent_loop [\<lparr>agent_id = ''a'', agent_name = ''A'', agent_path = ''/a''\<rparr>] (initial_selected [\<lparr>agent_id = ''a'', agent_name = ''A'', agent_path = ''/a''\<rparr>] None) 0 [] = Continue {''a''} 0"
    by (simp add: initial_selected_def)
  have ne: "{''a''} \<noteq> ({} :: string set)" by simp
  from enter_needs_selection [OF h1, of True True]
  have w: "display_agent_selection [\<lparr>agent_id = ''a'', agent_name = ''A'', agent_path = ''/a''\<rparr>] None True True True True
             ([Key '' '' True] @ [Key ''enter'' True]) = Waiting"
    by blast
  from enter_needs_selection [OF h2, of True True] ne
  have r: "display_agent_selection [\<lparr>agent_id = ''a'', agent_name = ''A'', agent_path = ''/a''\<rparr>] None True True True True
             ([] @ [Key ''enter'' True]) = Returns ([], {''a''})"
    by blast
  from h1 w h2 ne r show ?thesis by blast
qed

theorem cancel_returns_empty_witness:
  "agent_loop [\<lparr>agent_id = ''a'', agent_name = ''A'', agent_path = ''/a''\<rparr>,
         \<lparr>agent_id = ''b'', agent_name = ''B'', agent_path = ''/b''\<rparr>] (initial_selected [\<lparr>agent_id = ''a'', agent_name = ''A'', agent_path = ''/a''\<rparr>,
         \<lparr>agent_id = ''b'', agent_name = ''B'', agent_path = ''/b''\<rparr>] None) 0 [Key ''down'' True, Key '' '' True]
     = Continue {''a''} 1
   \<and> display_agent_selection [\<lparr>agent_id = ''a'', agent_name = ''A'', agent_path = ''/a''\<rparr>,
         \<lparr>agent_id = ''b'', agent_name = ''B'', agent_path = ''/b''\<rparr>] None True True True True
        ([Key ''down'' True, Key '' '' True] @ [Key ''escape'' True]) = Returns ([], {})
   \<and> display_agent_selection [\<lparr>agent_id = ''a'', agent_name = ''A'', agent_path = ''/a''\<rparr>,
         \<lparr>agent_id = ''b'', agent_name = ''B'', agent_path = ''/b''\<rparr>] None True True True True
        ([Key ''down'' True, Key '' '' True] @ [Key ''q'' True]) = Returns ([], {})
   \<and> display_agent_selection [\<lparr>agent_id = ''a'', agent_name = ''A'', agent_path = ''/a''\<rparr>,
         \<lparr>agent_id = ''b'', agent_name = ''B'', agent_path = ''/b''\<rparr>] None True True True True
        ([Key ''down'' True, Key '' '' True] @ [Key ''ctrl+c'' True]) = Returns ([], {})"
proof -
  have h: "agent_loop [\<lparr>agent_id = ''a'', agent_name = ''A'', agent_path = ''/a''\<rparr>,
         \<lparr>agent_id = ''b'', agent_name = ''B'', agent_path = ''/b''\<rparr>] (initial_selected [\<lparr>agent_id = ''a'', agent_name = ''A'', agent_path = ''/a''\<rparr>,
         \<lparr>agent_id = ''b'', agent_name = ''B'', agent_path = ''/b''\<rparr>] None) 0 [Key ''down'' True, Key '' '' True]
             = Continue {''a''} 1"
    by (simp add: initial_selected_def py_index_def py_mod_def insert_Diff_if)
  from h cancel_returns_empty [OF h, of "''escape''" True True]
    cancel_returns_empty [OF h, of "''q''" True True]
    cancel_returns_empty [OF h, of "''ctrl+c''" True True]
  show ?thesis by blast
qed

theorem exception_returns_current_selection_witness:
  "agent_loop [\<lparr>agent_id = ''a'', agent_name = ''A'', agent_path = ''/a''\<rparr>,
         \<lparr>agent_id = ''b'', agent_name = ''B'', agent_path = ''/b''\<rparr>] (initial_selected [\<lparr>agent_id = ''a'', agent_name = ''A'', agent_path = ''/a''\<rparr>,
         \<lparr>agent_id = ''b'', agent_name = ''B'', agent_path = ''/b''\<rparr>] None) 0 [Key '' '' True] = Continue {''b''} 0
   \<and> display_agent_selection [\<lparr>agent_id = ''a'', agent_name = ''A'', agent_path = ''/a''\<rparr>,
         \<lparr>agent_id = ''b'', agent_name = ''B'', agent_path = ''/b''\<rparr>] None True True True True ([Key '' '' True] @ [ReadRaises])
       = Returns ([render [\<lparr>agent_id = ''a'', agent_name = ''A'', agent_path = ''/a''\<rparr>,
         \<lparr>agent_id = ''b'', agent_name = ''B'', agent_path = ''/b''\<rparr>] {''b''} 0], {''b''})
   \<and> {''b''} \<noteq> ({} :: string set)
   \<and> agent_step [\<lparr>agent_id = ''a'', agent_name = ''A'', agent_path = ''/a''\<rparr>,
         \<lparr>agent_id = ''b'', agent_name = ''B'', agent_path = ''/b''\<rparr>] {''b''} 0 (Key '' '' False) = Raised {''a'', ''b''} 0
   \<and> display_agent_selection [\<lparr>agent_id = ''a'', agent_name = ''A'', agent_path = ''/a''\<rparr>,
         \<lparr>agent_id = ''b'', agent_name = ''B'', agent_path = ''/b''\<rparr>] None True True True True
        ([Key '' '' True] @ [Key '' '' False])
       = Returns ([render [\<lparr>agent_id = ''a'', agent_name = ''A'', agent_path = ''/a''\<rparr>,
         \<lparr>agent_id = ''b'', agent_name = ''B'', agent_path = ''/b''\<rparr>] {''a'', ''b''} 0], {''a'', ''b''})"
proof -
  have h: "agent_loop [\<lparr>agent_id = ''a'', agent_name = ''A'', agent_path = ''/a''\<rparr>,
         \<lparr>agent_id = ''b'', agent_name = ''B'', agent_path = ''/b''\<rparr>] (initial_selected [\<lparr>agent_id = ''a'', agent_name = ''A'', agent_path = ''/a''\<rparr>,
         \<lparr>agent_id = ''b'', agent_name = ''B'', agent_path = ''/b''\<rparr>] None) 0 [Key '' '' True] = Continue {''b''} 0"
    by (simp add: initial_selected_def py_index_def insert_Diff_if)
  have r: "agent_step [\<lparr>agent_id = ''a'', agent_name = ''A'', agent_path = ''/a''\<rparr>,
         \<lparr>agent_id = ''b'', agent_name = ''B'', agent_path = ''/b''\<rparr>] {''b''} 0 (Key '' '' False) = Raised {''a'', ''b''} 0"
    by (simp add: py_index_def)
  have ne: "{''b''} \<noteq> ({} :: string set)" by simp
  from h r ne exception_returns_current_selection [OF h]
  show ?thesis by blast
qed

end
